theory Spec2Isabelle
  imports Complex_Main "HOL-Library.AList" "HOL-Library.Word"
begin

section \<open>Python strings\<close>

text \<open>
  A Python \<open>str\<close> is modelled as a \<open>string\<close>; a \<open>char\<close> stands for a code point below 256.
  \<open>isspace\<close> is Python's notion of whitespace on that range, the one both \<open>str.strip()\<close> and the
  regular expression class \<open>\s\<close> use: tab, line feed, vertical tab, form feed, carriage return,
  the separators 0x1C to 0x1F, space, NEL (0x85) and the no-break space (0xA0).
\<close>

definition isspace :: "char \<Rightarrow> bool" where
  "isspace c = (c \<in> set [CHR 0x09, CHR 0x0A, CHR 0x0B, CHR 0x0C, CHR 0x0D,
                          CHR 0x1C, CHR 0x1D, CHR 0x1E, CHR 0x1F, CHR '' '', CHR 0x85, CHR 0xA0])"

text \<open>\<open>s.strip()\<close>: leading and trailing whitespace removed.\<close>

definition strip :: "string \<Rightarrow> string" where
  "strip s = rev (dropWhile isspace (rev (dropWhile isspace s)))"

text \<open>\<open>re.sub(r"\s+", " ", s)\<close>: every maximal run of whitespace replaced by one space.\<close>

function sub_ws :: "string \<Rightarrow> string" where
  "sub_ws [] = []"
| "sub_ws (c # cs) =
     (if isspace c then CHR '' '' # sub_ws (dropWhile isspace cs) else c # sub_ws cs)"
  by pat_completeness auto
termination
  by (relation "measure length") (auto simp: le_imp_less_Suc length_dropWhile_le)

text \<open>\<open>sep.join(parts)\<close>.\<close>

fun join :: "string \<Rightarrow> string list \<Rightarrow> string" where
  "join sep [] = []"
| "join sep [x] = x"
| "join sep (x # y # zs) = x @ sep @ join sep (y # zs)"

text \<open>
  Slicing \<open>xs[a:b]\<close> with Python's treatment of the bounds: a negative bound counts from the
  end, and both bounds are clamped into \<open>0 .. len(xs)\<close>.
\<close>

definition slice_bound :: "nat \<Rightarrow> int \<Rightarrow> nat" where
  "slice_bound n i =
     (if i < 0 then (if i + int n < 0 then 0 else nat (i + int n))
      else if int n < i then n else nat i)"

definition py_slice :: "'a list \<Rightarrow> int \<Rightarrow> int \<Rightarrow> 'a list" where
  "py_slice xs a b = drop (slice_bound (length xs) a) (take (slice_bound (length xs) b) xs)"

section \<open>Utilities\<close>

definition clean_text :: "string \<Rightarrow> string" where
  "clean_text s = strip (sub_ws s)"

section \<open>Chunking\<close>

text \<open>
  The window of \<open>split_text\<close> that starts at \<open>start\<close> ends at \<open>window_end\<close>; the next window
  starts at \<open>next_start\<close>.
\<close>

definition window_end :: "string \<Rightarrow> int \<Rightarrow> int \<Rightarrow> int" where
  "window_end text max_chars start = min (int (length text)) (start + max_chars)"

definition next_start :: "string \<Rightarrow> int \<Rightarrow> int \<Rightarrow> int \<Rightarrow> int" where
  "next_start text max_chars overlap start = max 0 (window_end text max_chars start - overlap)"

text \<open>
  The \<open>while\<close> loop of \<open>split_text\<close>, with the loop variables \<open>start\<close> and \<open>chunks\<close> as
  arguments. The loop may run forever; then the value is \<open>None\<close>.
\<close>

partial_function (option) split_loop ::
  "string \<Rightarrow> int \<Rightarrow> int \<Rightarrow> int \<Rightarrow> string list \<Rightarrow> string list option" where
  "split_loop text max_chars overlap start chunks =
     (if start < int (length text) then
        (let chunk = strip (py_slice text start (window_end text max_chars start));
             chunks' = (if chunk \<noteq> [] then chunks @ [chunk] else chunks)
         in if window_end text max_chars start = int (length text) then Some chunks'
            else split_loop text max_chars overlap (next_start text max_chars overlap start) chunks')
      else Some chunks)"

declare split_loop.simps [code]

definition split_text :: "string \<Rightarrow> int \<Rightarrow> int \<Rightarrow> string list option" where
  "split_text text max_chars overlap =
     (if int (length text) \<le> max_chars then Some [text]
      else split_loop text max_chars overlap 0 [])"

section \<open>Stable identifiers\<close>






section \<open>HTML to sections\<close>

text \<open>
  The tree \<open>BeautifulSoup(html, "lxml")\<close> builds: an element (\<open>Tag\<close>) has a name and its children
  in document order, a \<open>NavigableString\<close> is a piece of text. The \<open>BeautifulSoup\<close> object itself is
  the \<open>Tag\<close> at the root. Attributes are left out (the selectors used are tag names only), and so
  are comments, which \<open>get_text\<close> does not return. The parser is a library function: the
  functions below take it as the parameter \<open>parse\<close>.
\<close>

datatype page_element = NavigableString string | Tag string "page_element list"

fun tag_name :: "page_element \<Rightarrow> string option" where
  "tag_name (NavigableString s) = None"
| "tag_name (Tag n cs) = Some n"

text \<open>\<open>s.lower()\<close> on code points below 256.\<close>

definition lower_char :: "char \<Rightarrow> char" where
  "lower_char c =
     (let n = (of_char c :: nat)
      in if (65 \<le> n \<and> n \<le> 90) \<or> (192 \<le> n \<and> n \<le> 222 \<and> n \<noteq> 215) then char_of (n + 32) else c)"

definition lower :: "string \<Rightarrow> string" where
  "lower s = map lower_char s"

text \<open>The descendants of an element, in document order.\<close>

fun descendants :: "page_element \<Rightarrow> page_element list" where
  "descendants (NavigableString s) = []"
| "descendants (Tag n cs) = concat (map (\<lambda>c. c # descendants c) cs)"

text \<open>The pieces of text below an element, in document order.\<close>

fun strings :: "page_element \<Rightarrow> string list" where
  "strings (NavigableString s) = [s]"
| "strings (Tag n cs) = concat (map strings cs)"

text \<open>
  \<open>el.get_text(sep, strip=True)\<close>: every piece of text is stripped, the empty ones are dropped,
  and the rest is joined by \<open>sep\<close>.
\<close>

definition get_text :: "string \<Rightarrow> page_element \<Rightarrow> string" where
  "get_text sep el = join sep (filter (\<lambda>s. s \<noteq> []) (map strip (strings el)))"

text \<open>
  \<open>el.select("n1, n2, ...")\<close> for a list of tag names: the descendants with one of the names,
  in document order. Tag names match without regard to case in an HTML document.
\<close>

definition has_name :: "string list \<Rightarrow> page_element \<Rightarrow> bool" where
  "has_name names el = (case tag_name el of None \<Rightarrow> False | Some n \<Rightarrow> lower n \<in> set names)"

definition select :: "string list \<Rightarrow> page_element \<Rightarrow> page_element list" where
  "select names el = filter (has_name names) (descendants el)"

definition select_one :: "string list \<Rightarrow> page_element \<Rightarrow> page_element option" where
  "select_one names el = (case select names el of [] \<Rightarrow> None | x # _ \<Rightarrow> Some x)"

text \<open>
  \<open>for tag in soup.select(names): tag.decompose()\<close>: every descendant with one of the names is
  removed from the tree, with all that is below it.
\<close>

fun decompose :: "string list \<Rightarrow> page_element \<Rightarrow> page_element" where
  "decompose names (NavigableString s) = NavigableString s"
| "decompose names (Tag n cs) =
     Tag n (map (decompose names) (filter (\<lambda>c. \<not> has_name names c) cs))"

record html_section =
  heading_path :: "string list"
  "text" :: string

text \<open>The local variables of \<open>html_to_sections\<close> that its loop and \<open>flush\<close> update.\<close>

record sectionizer =
  heading_stack :: "(int \<times> string) list"
  sections :: "html_section list"
  current_lines :: "string list"
  current_path :: "string list"

definition flush :: "sectionizer \<Rightarrow> sectionizer" where
  "flush st =
     (let text = clean_text (join [CHR 0x0A] (current_lines st));
          st = (if text \<noteq> []
                then st\<lparr>sections := sections st @ [\<lparr>heading_path = current_path st, text = text\<rparr>]\<rparr>
                else st)
      in st\<lparr>current_lines := []\<rparr>)"

text \<open>\<open>while heading_stack and heading_stack[-1][0] >= level: heading_stack.pop()\<close>\<close>

definition pop_closed :: "int \<Rightarrow> (int \<times> string) list \<Rightarrow> (int \<times> string) list" where
  "pop_closed level stack = rev (dropWhile (\<lambda>e. fst e \<ge> level) (rev stack))"

text \<open>\<open>int(name[1])\<close> for a heading name \<open>h1\<close> to \<open>h6\<close>.\<close>

definition heading_level :: "string \<Rightarrow> int" where
  "heading_level name = int (of_char (name ! 1)) - 48"

text \<open>
  The body of the loop over the selected elements. A selected element has one of the names
  \<open>h1\<close> to \<open>h6\<close>, \<open>p\<close>, \<open>li\<close>, \<open>pre\<close>, \<open>code\<close>, \<open>table\<close>, so a name that starts with \<open>h\<close> is a heading.
\<close>

definition handle_element :: "sectionizer \<Rightarrow> page_element \<Rightarrow> sectionizer" where
  "handle_element st el =
     (let name = lower (case tag_name el of None \<Rightarrow> [] | Some n \<Rightarrow> n)
      in if take 1 name = ''h'' then
           (let st = flush st;
                level = heading_level name;
                title = clean_text (get_text '' '' el)
            in if title = [] then st
               else (let stack = pop_closed level (heading_stack st) @ [(level, title)]
                     in st\<lparr>heading_stack := stack, current_path := map snd stack\<rparr>))
         else if name = ''li'' then
           (let txt = clean_text (get_text '' '' el)
            in if txt \<noteq> [] then st\<lparr>current_lines := current_lines st @ [''- '' @ txt]\<rparr> else st)
         else if name = ''pre'' \<or> name = ''code'' then
           (let txt = get_text [CHR 0x0A] el
            in if txt \<noteq> []
               then st\<lparr>current_lines :=
                        current_lines st @ [''```text'' @ [CHR 0x0A] @ txt @ [CHR 0x0A] @ ''```'']\<rparr>
               else st)
         else if name = ''table'' then
           (let txt = clean_text (get_text '' '' el)
            in if txt \<noteq> [] then st\<lparr>current_lines := current_lines st @ [''[table] '' @ txt]\<rparr>
               else st)
         else
           (let txt = clean_text (get_text '' '' el)
            in if txt \<noteq> [] then st\<lparr>current_lines := current_lines st @ [txt]\<rparr> else st))"

definition content_root :: "page_element \<Rightarrow> page_element" where
  "content_root soup =
     (case select_one [''main''] soup of Some m \<Rightarrow> m
      | None \<Rightarrow> (case select_one [''article''] soup of Some a \<Rightarrow> a
        | None \<Rightarrow> (case select_one [''body''] soup of Some b \<Rightarrow> b
          | None \<Rightarrow> soup)))"

definition html_to_sections :: "(string \<Rightarrow> page_element) \<Rightarrow> string \<Rightarrow> html_section list" where
  "html_to_sections parse html =
     (let soup = decompose [''script'', ''style'', ''noscript'', ''svg''] (parse html);
          root = content_root soup;
          st = \<lparr>heading_stack = [], sections = [], current_lines = [], current_path = []\<rparr>;
          st = foldl handle_element st
                 (select [''h1'', ''h2'', ''h3'', ''h4'', ''h5'', ''h6'',
                          ''p'', ''li'', ''pre'', ''code'', ''table''] root);
          st = flush st
      in if sections st = []
         then (let text = clean_text (get_text [CHR 0x0A] root)
               in if text \<noteq> [] then [\<lparr>heading_path = [], text = text\<rparr>] else [])
         else sections st)"

text \<open>
  A parser for markup that is made of start tags without attributes, end tags and text. It puts
  the elements it reads into a \<open>body\<close> element inside an \<open>html\<close> element, which is where the
  lxml parser puts the elements of such a fragment. It gives the statements below a concrete
  parser to run \<open>html_to_sections\<close> with.
\<close>

datatype token = StartTag string | EndTag string | Chars string

function tokenize :: "string \<Rightarrow> token list" where
  "tokenize [] = []"
| "tokenize (c # cs) =
     (if c = CHR ''<'' then
        (let tag = takeWhile (\<lambda>x. x \<noteq> CHR ''>'') cs;
             rest = drop 1 (dropWhile (\<lambda>x. x \<noteq> CHR ''>'') cs)
         in (if take 1 tag = ''/'' then EndTag (drop 1 tag) else StartTag tag) # tokenize rest)
      else Chars (c # takeWhile (\<lambda>x. x \<noteq> CHR ''<'') cs)
             # tokenize (dropWhile (\<lambda>x. x \<noteq> CHR ''<'') cs))"
  by pat_completeness auto
termination
  by (relation "measure length")
     (auto simp: less_Suc_eq_le
           intro: order_trans [OF diff_le_self length_dropWhile_le] length_dropWhile_le)

text \<open>
  The tree of a token list: \<open>stack\<close> holds the open elements, innermost first, each with the
  children its parent has so far, and \<open>cur\<close> the children of the innermost open element.
\<close>

fun build_tree ::
  "token list \<Rightarrow> (string \<times> page_element list) list \<Rightarrow> page_element list \<Rightarrow> page_element list" where
  "build_tree [] [] cur = cur"
| "build_tree [] ((n, sib) # stack) cur = build_tree [] stack (sib @ [Tag n cur])"
| "build_tree (Chars s # ts) stack cur = build_tree ts stack (cur @ [NavigableString s])"
| "build_tree (StartTag n # ts) stack cur = build_tree ts ((n, cur) # stack) []"
| "build_tree (EndTag n # ts) [] cur = build_tree ts [] cur"
| "build_tree (EndTag n # ts) ((m, sib) # stack) cur = build_tree ts stack (sib @ [Tag m cur])"

definition parse_fragment :: "string \<Rightarrow> page_element" where
  "parse_fragment html =
     Tag ''[document]'' [Tag ''html'' [Tag ''body'' (build_tree (tokenize html) [] [])]]"

section \<open>The knowledge base tools\<close>

text \<open>
  Python values that occur in metadata and in the mappings the tools return. A \<open>dict\<close> is an
  association list in insertion order with distinct keys; \<open>lookup\<close> is \<open>map_of\<close>.
\<close>

datatype pyval =
    PNone
  | PBool bool
  | PInt int
  | PFloat real
  | PStr string
  | PList "pyval list"
  | PDict "(string \<times> pyval) list"

type_synonym pydict = "(string \<times> pyval) list"



text \<open>
  The index is a library object. The model keeps what the tools hand to it: the documents given
  to \<open>index.insert\<close>, in order (an insertion never replaces an earlier one), and the documents
  that the last \<open>persist\<close> wrote to the storage directory.
\<close>

record document =
  doc_text :: string
  metadata :: pydict









text \<open>
  A node of the index as the tools read it, and a retrieved node with its score (\<open>None\<close> when
  the score is missing). A float is modelled as a real number; the tools only pass scores on.
\<close>

record node =
  node_id :: string
  content :: string
  node_metadata :: "pydict option"

record node_with_score =
  node :: node
  score :: "real option"

text \<open>One entry of the \<open>results\<close> list of \<open>kb_search\<close>, for the retrieved node \<open>n\<close>.\<close>

definition search_result :: "node_with_score \<Rightarrow> pyval" where
  "search_result n =
     PDict [(''node_id'', PStr (node_id (node n))),
            (''score'', PFloat (case score n of None \<Rightarrow> 0 | Some x \<Rightarrow> x)),
            (''text'', PStr (take 1500 (content (node n)))),
            (''metadata'', PDict (case node_metadata (node n) of None \<Rightarrow> [] | Some m \<Rightarrow> m))]"

text \<open>
  \<open>kb_search\<close>. The retriever is a library object: \<open>retrieve k query\<close> stands for
  \<open>index.as_retriever(similarity_top_k=k).retrieve(query)\<close>.
\<close>

definition kb_search :: "(int \<Rightarrow> string \<Rightarrow> node_with_score list) \<Rightarrow> string \<Rightarrow> int \<Rightarrow> pydict" where
  "kb_search retrieve query top_k =
     (let nodes = retrieve (max 1 (min top_k 20)) query
      in [(''ok'', PBool True), (''results'', PList (map search_result nodes))])"

text \<open>
  What a call can raise: an instance of \<open>Exception\<close>, or a \<open>BaseException\<close> that is not one
  (\<open>KeyboardInterrupt\<close>, \<open>SystemExit\<close>). The string is \<open>str(e)\<close>.
\<close>

datatype raised = Exception string | BaseException string

text \<open>
  \<open>kb_quote\<close>. \<open>get_node\<close> stands for \<open>index.storage_context.docstore.get_node\<close>, which returns a
  node or raises. \<open>except Exception\<close> catches the instances of \<open>Exception\<close> only.
\<close>

definition kb_quote :: "(string \<Rightarrow> raised + node) \<Rightarrow> string \<Rightarrow> raised + pydict" where
  "kb_quote get_node nid =
     (case get_node nid of
        Inr n \<Rightarrow>
          Inr [(''ok'', PBool True),
               (''text'', PStr (take 4000 (content n))),
               (''metadata'', PDict (case node_metadata n of None \<Rightarrow> [] | Some m \<Rightarrow> m))]
      | Inl (Exception msg) \<Rightarrow> Inr [(''ok'', PBool False), (''error'', PStr msg)]
      | Inl (BaseException msg) \<Rightarrow> Inl (BaseException msg))"

text \<open>
  The document store of the index as a mapping from node ids to nodes. Its \<open>get_node\<close> raises
  \<open>ValueError("doc_id <id> not found.")\<close> for an id that is not in the store.
\<close>

definition docstore_get_node :: "(string \<rightharpoonup> node) \<Rightarrow> string \<Rightarrow> raised + node" where
  "docstore_get_node store nid =
     (case store nid of
        None \<Rightarrow> Inl (Exception (''doc_id '' @ nid @ '' not found.''))
      | Some n \<Rightarrow> Inr n)"

section \<open>Notions used in the statements\<close>




text \<open>
  A string is \<open>collapsed\<close> when its only whitespace characters are single spaces: every
  whitespace character is a space and is not followed by another whitespace character.
\<close>

fun collapsed :: "string \<Rightarrow> bool" where
  "collapsed [] = True"
| "collapsed (c # cs) =
     ((isspace c \<longrightarrow> c = CHR '' '' \<and> (cs \<noteq> [] \<longrightarrow> \<not> isspace (hd cs))) \<and> collapsed cs)"


section \<open>The text normalizer\<close>

lemma dropWhile_no_lead:
  "xs = [] \<or> \<not> P (hd xs) \<Longrightarrow> dropWhile P xs = xs"
  by (cases xs) auto

lemma lead_dropWhile: "dropWhile P xs = [] \<or> \<not> P (hd (dropWhile P xs))"
  using hd_dropWhile by blast

lemma sub_ws_lead:
  "xs = [] \<or> \<not> isspace (hd xs) \<Longrightarrow> sub_ws xs = [] \<or> \<not> isspace (hd (sub_ws xs))"
  by (cases xs) auto

lemma collapsed_sub_ws: "collapsed (sub_ws s)"
proof (induction s rule: sub_ws.induct)
  case 1
  show ?case by simp
next
  case (2 c cs)
  show ?case
  proof (cases "isspace c")
    case True
    have "sub_ws (dropWhile isspace cs) = [] \<or> \<not> isspace (hd (sub_ws (dropWhile isspace cs)))"
      by (rule sub_ws_lead) (rule lead_dropWhile)
    with True 2 show ?thesis by auto
  next
    case False
    with 2 show ?thesis by simp
  qed
qed

lemma sub_ws_collapsed: "collapsed t \<Longrightarrow> sub_ws t = t"
proof (induction t)
  case Nil
  show ?case by simp
next
  case (Cons c cs)
  show ?case
  proof (cases "isspace c")
    case True
    with Cons.prems have "c = CHR '' ''" and "cs = [] \<or> \<not> isspace (hd cs)" by auto
    then have "dropWhile isspace cs = cs" by (simp add: dropWhile_no_lead)
    with True \<open>c = CHR '' ''\<close> Cons show ?thesis by simp
  next
    case False
    with Cons show ?thesis by simp
  qed
qed

lemma collapsed_drop: "collapsed t \<Longrightarrow> collapsed (drop n t)"
proof (induction t arbitrary: n)
  case Nil
  show ?case by simp
next
  case (Cons c cs)
  then show ?case by (cases n) auto
qed

lemma collapsed_take: "collapsed t \<Longrightarrow> collapsed (take n t)"
proof (induction t arbitrary: n)
  case Nil
  show ?case by simp
next
  case (Cons c cs)
  show ?case
  proof (cases n)
    case 0
    then show ?thesis by simp
  next
    case (Suc m)
    have "take m cs \<noteq> [] \<Longrightarrow> hd (take m cs) = hd cs"
      by (cases cs; cases m) auto
    with Cons Suc show ?thesis by auto
  qed
qed

text \<open>What \<open>strip\<close> returns is a slice of its argument.\<close>

lemma strip_take_drop:
  "strip t = take (length (dropWhile isspace t) - length (takeWhile isspace (rev (dropWhile isspace t))))
               (drop (length (takeWhile isspace t)) t)"
proof -
  have "strip t = rev (drop (length (takeWhile isspace (rev (dropWhile isspace t))))
                        (rev (dropWhile isspace t)))"
    by (simp add: strip_def dropWhile_eq_drop [symmetric])
  also have "\<dots> = take (length (dropWhile isspace t)
                           - length (takeWhile isspace (rev (dropWhile isspace t))))
                        (dropWhile isspace t)"
    by (simp add: rev_drop)
  finally show ?thesis by (simp add: dropWhile_eq_drop [symmetric])
qed

lemma collapsed_strip: "collapsed t \<Longrightarrow> collapsed (strip t)"
  by (subst strip_take_drop) (intro collapsed_take collapsed_drop)

lemma strip_no_lead: "dropWhile isspace (strip u) = strip u"
proof (cases "dropWhile isspace u")
  case Nil
  show ?thesis unfolding strip_def Nil by simp
next
  case (Cons d ds)
  have "\<not> isspace d"
    using hd_dropWhile [of isspace u] Cons by auto
  then have "strip u = d # rev (dropWhile isspace (rev ds))"
    by (simp add: strip_def Cons dropWhile_append3)
  with \<open>\<not> isspace d\<close> show ?thesis by simp
qed

lemma strip_no_trail: "dropWhile isspace (rev (strip u)) = rev (strip u)"
  by (simp add: strip_def)

lemma strip_idem: "strip (strip u) = strip u"
proof -
  have "strip (strip u) = rev (dropWhile isspace (rev (dropWhile isspace (strip u))))"
    by (simp add: strip_def)
  also have "\<dots> = rev (dropWhile isspace (rev (strip u)))"
    by (simp only: strip_no_lead)
  also have "\<dots> = strip u"
    by (simp only: strip_no_trail rev_rev_ident)
  finally show ?thesis .
qed

text \<open>
  Claim C9. The text normalizer \<open>_clean_text\<close> is idempotent: normalizing a normalized string
  gives the same string, for every string.
\<close>

theorem clean_text_idempotent: "clean_text (clean_text s) = clean_text s"
proof -
  have "collapsed (strip (sub_ws s))"
    by (intro collapsed_strip collapsed_sub_ws)
  then have "sub_ws (strip (sub_ws s)) = strip (sub_ws s)"
    by (rule sub_ws_collapsed)
  then show ?thesis
    by (simp add: clean_text_def strip_idem)
qed

section \<open>The chunker\<close>

lemma split_loop_stop:
  "\<not> start < int (length s) \<Longrightarrow> split_loop s max_chars overlap start chunks = Some chunks"
  by (subst split_loop.simps) simp

lemma split_loop_last:
  "start < int (length s) \<Longrightarrow> window_end s max_chars start = int (length s) \<Longrightarrow>
   split_loop s max_chars overlap start chunks =
     Some (if strip (py_slice s start (window_end s max_chars start)) \<noteq> []
           then chunks @ [strip (py_slice s start (window_end s max_chars start))] else chunks)"
  by (subst split_loop.simps) (simp add: Let_def)

lemma split_loop_step:
  "start < int (length s) \<Longrightarrow> window_end s max_chars start \<noteq> int (length s) \<Longrightarrow>
   split_loop s max_chars overlap start chunks =
     split_loop s max_chars overlap (next_start s max_chars overlap start)
       (if strip (py_slice s start (window_end s max_chars start)) \<noteq> []
        then chunks @ [strip (py_slice s start (window_end s max_chars start))] else chunks)"
  by (subst split_loop.simps) (simp add: Let_def)

lemma next_start_advances:
  assumes "0 \<le> overlap" and "overlap < max_chars" and "0 \<le> start"
    and "start < int (length s)" and "window_end s max_chars start \<noteq> int (length s)"
  shows "start < next_start s max_chars overlap start"
    and "next_start s max_chars overlap start = start + max_chars - overlap"
    and "window_end s max_chars start = start + max_chars"
    and "start + max_chars < int (length s)"
  using assms by (auto simp: next_start_def window_end_def min_def max_def split: if_splits)

lemma split_loop_terminates:
  assumes "0 \<le> overlap" and "overlap < max_chars"
  shows "0 \<le> start \<Longrightarrow> \<exists>ys. split_loop s max_chars overlap start chunks = Some ys"
proof (induction "nat (int (length s) - start)" arbitrary: start chunks rule: less_induct)
  case less
  show ?case
  proof (cases "start < int (length s)")
    case False
    then show ?thesis by (simp add: split_loop_stop)
  next
    case inside: True
    show ?thesis
    proof (cases "window_end s max_chars start = int (length s)")
      case True
      with inside show ?thesis by (simp add: split_loop_last)
    next
      case False
      note adv = next_start_advances [OF assms less.prems inside False]
      have "nat (int (length s) - next_start s max_chars overlap start)
              < nat (int (length s) - start)"
        using adv(1) inside by linarith
      moreover have "0 \<le> next_start s max_chars overlap start"
        using adv(1) less.prems by linarith
      ultimately have "\<exists>ys. split_loop s max_chars overlap (next_start s max_chars overlap start)
          (if strip (py_slice s start (window_end s max_chars start)) \<noteq> []
           then chunks @ [strip (py_slice s start (window_end s max_chars start))] else chunks)
          = Some ys"
        by (rule less.hyps)
      then show ?thesis
        by (simp only: split_loop_step [OF inside False])
    qed
  qed
qed

text \<open>
  Claim C5. For every text and all integers with \<open>0 \<le> overlap < max_chars\<close>, \<open>split_text\<close>
  returns: as long as the loop goes on, the window start strictly increases, and the loop stops
  at a window that ends at \<open>len(text)\<close>.
\<close>

theorem split_text_terminates:
  assumes "0 \<le> overlap" and "overlap < max_chars"
  shows "(\<exists>chunks. split_text s max_chars overlap = Some chunks) \<and>
         (\<forall>start. 0 \<le> start \<and> start < int (length s) \<and>
                  window_end s max_chars start \<noteq> int (length s) \<longrightarrow>
                  start < next_start s max_chars overlap start) \<and>
         (\<forall>start chunks. start < int (length s) \<and>
                  window_end s max_chars start = int (length s) \<longrightarrow>
                  (\<exists>ys. split_loop s max_chars overlap start chunks = Some ys))"
proof (intro conjI allI impI)
  show "\<exists>chunks. split_text s max_chars overlap = Some chunks"
    using split_loop_terminates [OF assms, of 0 s "[]"] by (simp add: split_text_def)
next
  fix start
  assume "0 \<le> start \<and> start < int (length s) \<and> window_end s max_chars start \<noteq> int (length s)"
  then show "start < next_start s max_chars overlap start"
    using next_start_advances(1) [OF assms] by blast
next
  fix start chunks
  assume "start < int (length s) \<and> window_end s max_chars start = int (length s)"
  then show "\<exists>ys. split_loop s max_chars overlap start chunks = Some ys"
    by (simp add: split_loop_last)
qed

theorem split_text_terminates_witness:
  "(0::int) \<le> 3 \<and> (3::int) < 10 \<and>
   split_text ''abcdefghijklmno'' 10 3 = Some [''abcdefghij'', ''hijklmno''] \<and>
   (0::int) < next_start ''abcdefghijklmno'' 10 3 0"
proof -
  have h1: "(0::int) \<le> 3" and h2: "(3::int) < 10" by simp_all
  note t = split_text_terminates [OF h1 h2, of "''abcdefghijklmno''"]
  have v: "split_text ''abcdefghijklmno'' 10 3 = Some [''abcdefghij'', ''hijklmno'']"
    by code_simp
  have w: "(0::int) \<le> 0 \<and> 0 < int (length ''abcdefghijklmno'') \<and>
           window_end ''abcdefghijklmno'' 10 0 \<noteq> int (length ''abcdefghijklmno'')"
    by (simp add: window_end_def)
  from t [THEN conjunct2, THEN conjunct1] w
  have "(0::int) < next_start ''abcdefghijklmno'' 10 3 0" by blast
  with h1 h2 v show ?thesis by blast
qed










section \<open>The sectionizer\<close>

text \<open>
  Claim C4. For the input \<open><h1>A</h1><p>x</p><h2>B</h2><p>y</p>\<close>, for which the parser builds a
  body with the four elements \<open>h1\<close>, \<open>p\<close>, \<open>h2\<close>, \<open>p\<close>, \<open>html_to_sections\<close> returns exactly two
  sections in order: heading path \<open>["A"]\<close> with text \<open>"x"\<close>, then heading path \<open>["A", "B"]\<close> with
  text \<open>"y"\<close>.
\<close>

theorem html_to_sections_example:
  assumes "parse ''<h1>A</h1><p>x</p><h2>B</h2><p>y</p>'' =
             Tag ''[document]'' [Tag ''html'' [Tag ''body''
               [Tag ''h1'' [NavigableString ''A''], Tag ''p'' [NavigableString ''x''],
                Tag ''h2'' [NavigableString ''B''], Tag ''p'' [NavigableString ''y'']]]]"
  shows "html_to_sections parse ''<h1>A</h1><p>x</p><h2>B</h2><p>y</p>'' =
           [\<lparr>heading_path = [''A''], text = ''x''\<rparr>,
            \<lparr>heading_path = [''A'', ''B''], text = ''y''\<rparr>]"
  unfolding html_to_sections_def assms by code_simp

theorem html_to_sections_example_witness:
  "parse_fragment ''<h1>A</h1><p>x</p><h2>B</h2><p>y</p>'' =
     Tag ''[document]'' [Tag ''html'' [Tag ''body''
       [Tag ''h1'' [NavigableString ''A''], Tag ''p'' [NavigableString ''x''],
        Tag ''h2'' [NavigableString ''B''], Tag ''p'' [NavigableString ''y'']]]] \<and>
   html_to_sections parse_fragment ''<h1>A</h1><p>x</p><h2>B</h2><p>y</p>'' =
     [\<lparr>heading_path = [''A''], text = ''x''\<rparr>,
      \<lparr>heading_path = [''A'', ''B''], text = ''y''\<rparr>]"
proof -
  have h: "parse_fragment ''<h1>A</h1><p>x</p><h2>B</h2><p>y</p>'' =
     Tag ''[document]'' [Tag ''html'' [Tag ''body''
       [Tag ''h1'' [NavigableString ''A''], Tag ''p'' [NavigableString ''x''],
        Tag ''h2'' [NavigableString ''B''], Tag ''p'' [NavigableString ''y'']]]]"
    by code_simp
  from h html_to_sections_example [of parse_fragment, OF h] show ?thesis by (rule conjI)
qed

text \<open>
  Claim C3, as amended. When \<open>html_to_sections\<close> meets a heading element whose normalized title is
  empty, it flushes the section text accumulated so far (a section is emitted if that text is
  not empty after normalization, and the accumulator is reset), and it leaves the heading stack
  and the current heading path as they are.
\<close>

theorem empty_heading_flushes:
  assumes "has_name [''h1'', ''h2'', ''h3'', ''h4'', ''h5'', ''h6''] el"
    and "clean_text (get_text '' '' el) = []"
  shows "handle_element st el = flush st \<and>
         heading_stack (handle_element st el) = heading_stack st \<and>
         current_path (handle_element st el) = current_path st \<and>
         current_lines (handle_element st el) = [] \<and>
         sections (handle_element st el) =
           (if clean_text (join [CHR 0x0A] (current_lines st)) \<noteq> []
            then sections st @ [\<lparr>heading_path = current_path st,
                                 text = clean_text (join [CHR 0x0A] (current_lines st))\<rparr>]
            else sections st)"
proof -
  from assms(1) obtain n where n: "tag_name el = Some n"
    and "lower n \<in> set [''h1'', ''h2'', ''h3'', ''h4'', ''h5'', ''h6'']"
    by (auto simp: has_name_def split: option.splits)
  then have "take 1 (lower n) = ''h''" by auto
  with n assms(2) show ?thesis
    by (simp add: handle_element_def flush_def Let_def)
qed

theorem empty_heading_flushes_witness:
  "has_name [''h1'', ''h2'', ''h3'', ''h4'', ''h5'', ''h6''] (Tag ''h2'' []) \<and>
   clean_text (get_text '' '' (Tag ''h2'' [])) = [] \<and>
   heading_stack (handle_element
     \<lparr>heading_stack = [(1, ''A'')], sections = [], current_lines = [''x''], current_path = [''A'']\<rparr>
     (Tag ''h2'' [])) = [(1, ''A'')] \<and>
   current_path (handle_element
     \<lparr>heading_stack = [(1, ''A'')], sections = [], current_lines = [''x''], current_path = [''A'']\<rparr>
     (Tag ''h2'' [])) = [''A'']"
proof -
  have h1: "has_name [''h1'', ''h2'', ''h3'', ''h4'', ''h5'', ''h6''] (Tag ''h2'' [])"
    by code_simp
  have h2: "clean_text (get_text '' '' (Tag ''h2'' [])) = []" by code_simp
  note t = empty_heading_flushes [OF h1 h2,
      of "\<lparr>heading_stack = [(1, ''A'')], sections = [], current_lines = [''x''],
           current_path = [''A'']\<rparr>"]
  from t [THEN conjunct2, THEN conjunct1] have a: "heading_stack (handle_element
     \<lparr>heading_stack = [(1, ''A'')], sections = [], current_lines = [''x''], current_path = [''A'']\<rparr>
     (Tag ''h2'' [])) = [(1, ''A'')]"
    by simp
  from t [THEN conjunct2, THEN conjunct2, THEN conjunct1] have b: "current_path (handle_element
     \<lparr>heading_stack = [(1, ''A'')], sections = [], current_lines = [''x''], current_path = [''A'']\<rparr>
     (Tag ''h2'' [])) = [''A'']"
    by simp
  from h1 h2 a b show ?thesis by blast
qed

text \<open>
  The claim as it was stated fails: an empty heading \<open>h2\<close> met with the line \<open>"x"\<close> accumulated
  under the path \<open>["A"]\<close> emits the section and resets the accumulator, and so an empty heading
  between two paragraphs splits them into two sections.
\<close>

theorem empty_heading_counterexample:
  "clean_text (get_text '' '' (Tag ''h2'' [])) = [] \<and>
   handle_element
     \<lparr>heading_stack = [(1, ''A'')], sections = [], current_lines = [''x''], current_path = [''A'']\<rparr>
     (Tag ''h2'' []) =
     \<lparr>heading_stack = [(1, ''A'')], sections = [\<lparr>heading_path = [''A''], text = ''x''\<rparr>],
      current_lines = [], current_path = [''A'']\<rparr> \<and>
   html_to_sections parse_fragment ''<h1>A</h1><p>x</p><h2></h2><p>y</p>'' =
     [\<lparr>heading_path = [''A''], text = ''x''\<rparr>, \<lparr>heading_path = [''A''], text = ''y''\<rparr>] \<and>
   html_to_sections parse_fragment ''<h1>A</h1><p>x</p><p>y</p>'' =
     [\<lparr>heading_path = [''A''], text = ''x y''\<rparr>]"
  by code_simp

section \<open>Search and quote\<close>

text \<open>
  Claim C6. For every integer \<open>top_k\<close>, the number of neighbours \<open>kb_search\<close> asks the retriever
  for is \<open>top_k\<close> clamped into the interval from 1 to 20: it is at least 1 and at most 20.
\<close>

theorem kb_search_clamps_top_k:
  "\<exists>k. 1 \<le> k \<and> k \<le> 20 \<and> k = max 1 (min top_k 20) \<and>
       kb_search retrieve query top_k =
         [(''ok'', PBool True), (''results'', PList (map search_result (retrieve k query)))]"
  by (simp add: kb_search_def)

text \<open>
  Claim C7. For an id that is not in the document store, \<open>kb_quote\<close> returns \<open>ok: false\<close> with a
  non-empty error message and does not raise. For an id that is in the store it returns
  \<open>ok: true\<close> with the stored content cut to at most 4000 characters and the full metadata.
\<close>

theorem kb_quote_lookup:
  "(store nid = None \<longrightarrow>
      (\<exists>msg. msg \<noteq> [] \<and>
         kb_quote (docstore_get_node store) nid =
           Inr [(''ok'', PBool False), (''error'', PStr msg)])) \<and>
   (\<forall>n. store nid = Some n \<longrightarrow>
      kb_quote (docstore_get_node store) nid =
        Inr [(''ok'', PBool True),
             (''text'', PStr (take 4000 (content n))),
             (''metadata'', PDict (case node_metadata n of None \<Rightarrow> [] | Some m \<Rightarrow> m))] \<and>
      length (take 4000 (content n)) \<le> 4000)"
  by (simp add: kb_quote_def docstore_get_node_def)

theorem kb_quote_lookup_witness:
  "[''n1'' \<mapsto> \<lparr>node_id = ''n1'', content = ''hello world'',
                node_metadata = Some [(''source_id'', PStr ''doc1'')]\<rparr>] ''nonexistent'' = None \<and>
   (\<exists>msg. msg \<noteq> [] \<and>
      kb_quote (docstore_get_node
          [''n1'' \<mapsto> \<lparr>node_id = ''n1'', content = ''hello world'',
                       node_metadata = Some [(''source_id'', PStr ''doc1'')]\<rparr>]) ''nonexistent'' =
        Inr [(''ok'', PBool False), (''error'', PStr msg)]) \<and>
   kb_quote (docstore_get_node
       [''n1'' \<mapsto> \<lparr>node_id = ''n1'', content = ''hello world'',
                    node_metadata = Some [(''source_id'', PStr ''doc1'')]\<rparr>]) ''n1'' =
     Inr [(''ok'', PBool True), (''text'', PStr ''hello world''),
          (''metadata'', PDict [(''source_id'', PStr ''doc1'')])]"
  using kb_quote_lookup [of "[''n1'' \<mapsto> \<lparr>node_id = ''n1'', content = ''hello world'',
                node_metadata = Some [(''source_id'', PStr ''doc1'')]\<rparr>]" "''nonexistent''"]
        kb_quote_lookup [of "[''n1'' \<mapsto> \<lparr>node_id = ''n1'', content = ''hello world'',
                node_metadata = Some [(''source_id'', PStr ''doc1'')]\<rparr>]" "''n1''"]
  by simp

text \<open>
  Claim C10. Whatever exception the node lookup raises, \<open>kb_quote\<close> catches it and returns
  \<open>ok: false\<close> with \<open>str\<close> of the exception as the error: the result is always a mapping with an
  \<open>ok\<close> field. An exception here is an instance of \<open>Exception\<close>, which every failure of the
  storage or of the backend is.
\<close>

theorem kb_quote_catches_exceptions:
  assumes "\<forall>msg. get_node nid \<noteq> Inl (BaseException msg)"
  shows "\<exists>r. kb_quote get_node nid = Inr r \<and> map_of r ''ok'' \<noteq> None \<and>
             (\<forall>msg. get_node nid = Inl (Exception msg) \<longrightarrow>
                r = [(''ok'', PBool False), (''error'', PStr msg)])"
  using assms by (auto simp: kb_quote_def split: sum.splits raised.splits)

theorem kb_quote_catches_exceptions_witness:
  "(\<forall>msg. (\<lambda>_. Inl (Exception ''disk read failed'')) ''n1''
            \<noteq> (Inl (BaseException msg) :: raised + node)) \<and>
   (\<exists>r. kb_quote (\<lambda>_. Inl (Exception ''disk read failed'')) ''n1'' = Inr r \<and>
        r = [(''ok'', PBool False), (''error'', PStr ''disk read failed'')])"
  using kb_quote_catches_exceptions [of "\<lambda>_. Inl (Exception ''disk read failed'')" "''n1''"]
  by simp

section \<open>Ingestion\<close>





















end
